theory Spec2Isabelle
  imports Main
begin

section \<open>The Redis counter store (backend/src/utils/redis.ts)\<close>

text \<open>
  The rate limiter keeps its counters in Redis through \<open>CacheService.increment\<close>. The
  server is modelled as a connection flag and a table from keys to an integer value with
  an optional absolute expiry time (milliseconds). A command on a lost connection raises;
  an entry whose expiry time has been reached is treated as absent. The server's clock
  and the clock read by \<open>Date.now()\<close> are taken to be the same.
\<close>

datatype redis_error = ConnectionError

record redis =
  connected :: bool
  entries :: "string \<rightharpoonup> int \<times> nat option"

definition alive :: "nat \<Rightarrow> int \<times> nat option \<Rightarrow> bool" where
  "alive t e = (case snd e of None \<Rightarrow> True | Some x \<Rightarrow> t < x)"

text \<open>\<open>INCR key\<close>: a missing (or expired) key counts from zero and has no expiry.\<close>

definition redis_incr :: "nat \<Rightarrow> redis \<Rightarrow> string \<Rightarrow> redis_error + int \<times> redis" where
  "redis_incr t r k =
     (if \<not> connected r then Inl ConnectionError
      else (case entries r k of
              None \<Rightarrow> Inr (1, r\<lparr>entries := (entries r)(k \<mapsto> (1, None))\<rparr>)
            | Some e \<Rightarrow>
                if alive t e
                then Inr (fst e + 1, r\<lparr>entries := (entries r)(k \<mapsto> (fst e + 1, snd e))\<rparr>)
                else Inr (1, r\<lparr>entries := (entries r)(k \<mapsto> (1, None))\<rparr>)))"

text \<open>\<open>EXPIRE key seconds\<close>: sets the expiry of an existing key.\<close>

definition redis_expire :: "nat \<Rightarrow> redis \<Rightarrow> string \<Rightarrow> nat \<Rightarrow> redis_error + redis" where
  "redis_expire t r k secs =
     (if \<not> connected r then Inl ConnectionError
      else (case entries r k of
              None \<Rightarrow> Inr r
            | Some e \<Rightarrow>
                if alive t e
                then Inr (r\<lparr>entries := (entries r)(k \<mapsto> (fst e, Some (t + secs * 1000)))\<rparr>)
                else Inr r))"

text \<open>
  \<open>CacheService.increment(key, ttlSeconds?)\<close>, lines 126-137. The \<open>try\<close> block increments
  and, when \<open>ttlSeconds\<close> is truthy and the result is 1, sets the expiry; the \<open>catch\<close> block
  logs and returns 0. The result is the returned number, the store and the lines logged.
\<close>

definition increment :: "nat \<Rightarrow> redis \<Rightarrow> string \<Rightarrow> nat option \<Rightarrow> int \<times> redis \<times> string list" where
  "increment t r key ttlSeconds =
     (case redis_incr t r key of
        Inl err \<Rightarrow> (0, r, [''Cache increment error for key '' @ key])
      | Inr (result, r1) \<Rightarrow>
          (case ttlSeconds of
             None \<Rightarrow> (result, r1, [])
           | Some secs \<Rightarrow>
               if secs \<noteq> 0 \<and> result = 1
               then (case redis_expire t r1 key secs of
                       Inl err \<Rightarrow> (0, r1, [''Cache increment error for key '' @ key])
                     | Inr r2 \<Rightarrow> (result, r2, []))
               else (result, r1, [])))"

section \<open>The fixed-window rate limiter (backend/src/middleware/rateLimiter.ts)\<close>

text \<open>
  Times and window lengths are non-negative integers of milliseconds, so that
  \<open>Math.floor(now / windowMs)\<close> is integer division; the limit is an integer.
  A non-negative integer is printed in a template literal as its decimal digits.
\<close>

definition digit_char :: "nat \<Rightarrow> char" where
  "digit_char d = char_of (48 + d)"

function Number_toString :: "nat \<Rightarrow> string" where
  "Number_toString n =
     (if n < 10 then [digit_char n] else Number_toString (n div 10) @ [digit_char (n mod 10)])"
  by pat_completeness auto
termination
  by (relation "measure (\<lambda>n. n)") auto

declare Number_toString.simps [simp del]

record limiter =
  windowMs :: nat
  maxRequests :: int

record rate_result =
  allowed :: bool
  remaining :: int
  resetTime :: nat

definition windowStart_of :: "limiter \<Rightarrow> nat \<Rightarrow> nat" where
  "windowStart_of lim now = (now div windowMs lim) * windowMs lim"

definition rate_key :: "string \<Rightarrow> nat \<Rightarrow> string" where
  "rate_key identifier windowStart =
     ''rate_limit:'' @ identifier @ '':'' @ Number_toString windowStart"

text \<open>
  \<open>RedisRateLimiter.isAllowed(identifier)\<close>, lines 21-47, at the time \<open>now\<close> that
  \<open>Date.now()\<close> returns. \<open>cache.increment\<close> never rejects (it catches every error and
  returns 0), so the \<open>catch\<close> block of \<open>isAllowed\<close> has no path leading to it and the
  function is the body of its \<open>try\<close> block. The third component is what was logged.
\<close>

definition isAllowed :: "limiter \<Rightarrow> nat \<Rightarrow> redis \<Rightarrow> string \<Rightarrow> rate_result \<times> redis \<times> string list" where
  "isAllowed lim now r identifier =
     (let windowStart = windowStart_of lim now;
          key = rate_key identifier windowStart
      in case increment now r key (Some ((windowMs lim + 999) div 1000)) of
           (current, r', logged) \<Rightarrow>
             (\<lparr>allowed = current \<le> maxRequests lim,
               remaining = max 0 (maxRequests lim - current),
               resetTime = windowStart + windowMs lim\<rparr>, r', logged))"


definition fresh :: redis where
  "fresh = \<lparr>connected = True, entries = Map.empty\<rparr>"

text \<open>
  The limiter instances of lines 92-109, with the defaults of lines 8-9 for the
  environment's settings. They share the cache, and their keys carry no instance name.
\<close>

definition defaultRateLimiter :: limiter where
  "defaultRateLimiter = \<lparr>windowMs = 900000, maxRequests = 100\<rparr>"

definition authRateLimiter :: limiter where
  "authRateLimiter = \<lparr>windowMs = 15 * 60 * 1000, maxRequests = 5\<rparr>"

definition notificationRateLimiter :: limiter where
  "notificationRateLimiter = \<lparr>windowMs = 60 * 1000, maxRequests = 10\<rparr>"

definition batchRateLimiter :: limiter where
  "batchRateLimiter = \<lparr>windowMs = 60 * 60 * 1000, maxRequests = 5\<rparr>"





section \<open>Placeholder replacement (String.prototype.replace with a global RegExp)\<close>







datatype error = SyntaxError | AppError nat string





section \<open>The in-app notification service (services/inAppService.ts, in src/unnamed/part_001)\<close>

datatype notification_type = T_info | T_success | T_warning | T_error

text \<open>
  \<open>InAppNotification\<close> (the field \<open>id\<close> is \<open>nid\<close> here, \<open>type\<close> is \<open>ntype\<close>) and
  \<open>NotificationOptions\<close> (fields prefixed with \<open>opt_\<close> where the two interfaces share a
  name). The \<open>data\<close> payload is kept as its JSON text.
\<close>

record InAppNotification =
  nid :: string
  to :: string
  title :: "string option"
  message :: string
  ntype :: notification_type
  data :: "string option"
  timestamp :: string
  read :: bool

record NotificationOptions =
  opt_to :: string
  opt_title :: "string option"
  opt_message :: string
  opt_type :: "notification_type option"
  opt_data :: "string option"
  persistent :: "bool option"
  ttl :: "nat option"

subsection \<open>CacheService over JSON documents\<close>

text \<open>
  \<open>CacheService.get\<close>, \<open>set\<close> and \<open>del\<close> (utils/redis.ts, lines 81-114) on a table from
  keys to a stored value and the time to live it was written with (seconds; \<open>None\<close> when
  it was written without expiry). When the store cannot be reached the Redis command
  raises, and the \<open>catch\<close> block returns \<open>null\<close> (get) or \<open>false\<close> (set, del) and leaves
  the table as it was. The boolean that \<open>set\<close> and \<open>del\<close> return is ignored by every
  caller in the service and is not part of the result. Expiry as time passes is not
  modelled for these documents.
\<close>

type_synonym 'v table = "string \<rightharpoonup> 'v \<times> nat option"

definition cache_get :: "bool \<Rightarrow> 'v table \<Rightarrow> string \<Rightarrow> 'v option" where
  "cache_get reachable tab key = (if reachable then map_option fst (tab key) else None)"

definition cache_set :: "bool \<Rightarrow> 'v table \<Rightarrow> string \<Rightarrow> 'v \<Rightarrow> nat option \<Rightarrow> 'v table" where
  "cache_set reachable tab key v ttlSeconds =
     (if reachable
      then tab(key \<mapsto> (v, case ttlSeconds of
                              None \<Rightarrow> None
                            | Some secs \<Rightarrow> if secs \<noteq> 0 then Some secs else None))
      else tab)"

definition cache_del :: "bool \<Rightarrow> 'v table \<Rightarrow> string \<Rightarrow> 'v table" where
  "cache_del reachable tab key = (if reachable then tab(key := None) else tab)"

text \<open>
  The service uses two families of keys, \<open>notification:<id>\<close> for a notification body
  and \<open>notifications:<userId>\<close> for a recipient's mailbox list. No key belongs to both
  (their thirteenth characters differ), so each family has a table of its own.
\<close>

record cache =
  up :: bool
  bodies :: "InAppNotification table"
  mailboxes :: "string list table"

definition notificationKey :: "string \<Rightarrow> string" where
  "notificationKey i = ''notification:'' @ i"

definition mailboxKey :: "string \<Rightarrow> string" where
  "mailboxKey userId = ''notifications:'' @ userId"

subsection \<open>Sessions and events\<close>

text \<open>
  The Socket.IO server: the sockets of each room, and whether \<open>fetchSockets\<close> rejects.
  \<open>io\<close> is \<open>None\<close> until \<open>setSocketServer\<close> ran. Every event a socket is sent is appended
  to \<open>outbox\<close>.
\<close>

datatype event =
    Notification InAppNotification
  | PendingNotifications "InAppNotification list"
  | NotificationRead string
  | AllNotificationsRead
  | NotificationDeleted string

record io_server =
  rooms :: "string \<Rightarrow> string list"
  fetch_fails :: bool

record inapp =
  io :: "io_server option"
  isConfigured :: bool
  store :: cache
  outbox :: "(string \<times> event) list"

definition userRoom :: "string \<Rightarrow> string" where
  "userRoom userId = ''user:'' @ userId"

text \<open>The sessions of a recipient: the sockets in the recipient's room.\<close>

definition sessions :: "inapp \<Rightarrow> string \<Rightarrow> string list" where
  "sessions st userId = (case io st of None \<Rightarrow> [] | Some srv \<Rightarrow> rooms srv (userRoom userId))"

text \<open>\<open>this.io?.to(room).emit(event)\<close>: every socket of the room is sent the event.\<close>

definition emit_to :: "inapp \<Rightarrow> string \<Rightarrow> event \<Rightarrow> inapp" where
  "emit_to st room ev =
     (case io st of
        None \<Rightarrow> st
      | Some srv \<Rightarrow> st\<lparr>outbox := outbox st @ map (\<lambda>sock. (sock, ev)) (rooms srv room)\<rparr>)"

subsection \<open>Delivery and storage\<close>

text \<open>\<open>deliverNotification\<close>, lines 548-568; the \<open>catch\<close> block is the rejected \<open>fetchSockets\<close>.\<close>

definition deliverNotification :: "inapp \<Rightarrow> InAppNotification \<Rightarrow> bool \<times> inapp" where
  "deliverNotification st notification =
     (case io st of
        None \<Rightarrow> (False, st)
      | Some srv \<Rightarrow>
          if fetch_fails srv then (False, st)
          else if length (rooms srv (userRoom (to notification))) = 0 then (False, st)
          else (True, emit_to st (userRoom (to notification)) (Notification notification)))"

text \<open>
  \<open>storeNotification\<close>, lines 570-598. No cache operation rejects, so the \<open>catch\<close> block
  has no path leading to it and the function returns \<open>true\<close>.
\<close>

definition storeNotification :: "inapp \<Rightarrow> InAppNotification \<Rightarrow> nat option \<Rightarrow> bool \<times> inapp" where
  "storeNotification st notification ttl_arg =
     (let c = store st;
          key = mailboxKey (to notification);
          seconds = (case ttl_arg of None \<Rightarrow> 86400 | Some t \<Rightarrow> if t \<noteq> 0 then t else 86400);
          bodies1 = cache_set (up c) (bodies c) (notificationKey (nid notification)) notification
                      (Some seconds);
          userNotifications = nid notification #
             (case cache_get (up c) (mailboxes c) key of None \<Rightarrow> [] | Some ids \<Rightarrow> ids);
          removedIds = drop 100 userNotifications;
          bodies2 = (if length userNotifications > 100
                     then fold (\<lambda>i tab. cache_del (up c) tab (notificationKey i)) removedIds bodies1
                     else bodies1);
          kept = (if length userNotifications > 100 then take 100 userNotifications
                  else userNotifications);
          mailboxes1 = cache_set (up c) (mailboxes c) key kept (Some seconds)
      in (True, st\<lparr>store := c\<lparr>bodies := bodies2, mailboxes := mailboxes1\<rparr>\<rparr>))"

text \<open>
  \<open>sendNotification\<close>, lines 441-481. The identifier from \<open>generateNotificationId\<close> and the
  timestamp are parameters. Inside the \<open>try\<close> block nothing throws.
\<close>

definition make_notification :: "NotificationOptions \<Rightarrow> string \<Rightarrow> string \<Rightarrow> InAppNotification" where
  "make_notification options newId now_iso =
     \<lparr>nid = newId, to = opt_to options, title = opt_title options,
      message = opt_message options,
      ntype = (case opt_type options of None \<Rightarrow> T_info | Some t \<Rightarrow> t),
      data = opt_data options, timestamp = now_iso, read = False\<rparr>"

definition sendNotification :: "inapp \<Rightarrow> NotificationOptions \<Rightarrow> string \<Rightarrow> string \<Rightarrow> error + (bool \<times> bool) \<times> inapp" where
  "sendNotification st options newId now_iso =
     (if \<not> isConfigured st then Inl (AppError 503 ''INAPP_SERVICE_UNAVAILABLE'')
      else
        let notification = make_notification options newId now_iso
        in case deliverNotification st notification of
             (delivered, st1) \<Rightarrow>
               if persistent options = Some True \<or> \<not> delivered
               then (case storeNotification st1 notification (ttl options) of
                       (stored, st2) \<Rightarrow> Inr ((delivered, stored), st2))
               else Inr ((delivered, False), st1))"



subsection \<open>The mailbox\<close>

text \<open>\<open>getUserNotifications(userId, includeRead = true, limit = 50)\<close>, lines 615-638.\<close>

definition getUserNotifications :: "inapp \<Rightarrow> string \<Rightarrow> bool \<Rightarrow> nat \<Rightarrow> InAppNotification list" where
  "getUserNotifications st userId includeRead limit =
     (let c = store st;
          notificationIds = (case cache_get (up c) (mailboxes c) (mailboxKey userId) of
                               None \<Rightarrow> [] | Some ids \<Rightarrow> ids)
      in List.map_filter
           (\<lambda>i. case cache_get (up c) (bodies c) (notificationKey i) of
                   None \<Rightarrow> None
                 | Some notification \<Rightarrow>
                     if includeRead \<or> \<not> read notification then Some notification else None)
           (take limit notificationIds))"

text \<open>
  \<open>sendPendingNotifications\<close>, lines 600-613: the unread notifications are fetched with
  the default limit of 50 and pushed to the room in one event, when there are any.
\<close>

definition sendPendingNotifications :: "inapp \<Rightarrow> string \<Rightarrow> inapp" where
  "sendPendingNotifications st userId =
     (let notifications = getUserNotifications st userId False 50
      in if length notifications > 0
         then emit_to st (userRoom userId) (PendingNotifications notifications)
         else st)"

text \<open>
  The \<open>join\<close> handler of \<open>setupSocketHandlers\<close>, lines 417-423: the socket joins the
  user's room, then the pending notifications are sent.
\<close>

definition join :: "inapp \<Rightarrow> string \<Rightarrow> string \<Rightarrow> inapp" where
  "join st sock userId =
     (case io st of
        None \<Rightarrow> st
      | Some srv \<Rightarrow>
          sendPendingNotifications
            (st\<lparr>io := Some (srv\<lparr>rooms := (rooms srv)
                    (userRoom userId := List.insert sock (rooms srv (userRoom userId)))\<rparr>)\<rparr>)
            userId)"

text \<open>\<open>markNotificationAsRead\<close>, lines 640-655, and \<open>deleteNotification\<close>, lines 686-707.\<close>

definition markNotificationAsRead :: "inapp \<Rightarrow> string \<Rightarrow> string \<Rightarrow> inapp" where
  "markNotificationAsRead st notificationId userId =
     (let c = store st
      in case cache_get (up c) (bodies c) (notificationKey notificationId) of
           None \<Rightarrow> st
         | Some notification \<Rightarrow>
             if to notification = userId
             then emit_to
                    (st\<lparr>store := c\<lparr>bodies := cache_set (up c) (bodies c)
                            (notificationKey notificationId) (notification\<lparr>read := True\<rparr>) None\<rparr>\<rparr>)
                    (userRoom userId) (NotificationRead notificationId)
             else st)"

definition deleteNotification :: "inapp \<Rightarrow> string \<Rightarrow> string \<Rightarrow> inapp" where
  "deleteNotification st notificationId userId =
     (let c = store st
      in case cache_get (up c) (bodies c) (notificationKey notificationId) of
           None \<Rightarrow> st
         | Some notification \<Rightarrow>
             if to notification = userId
             then
               let key = mailboxKey userId;
                   notificationIds = (case cache_get (up c) (mailboxes c) key of
                                        None \<Rightarrow> [] | Some ids \<Rightarrow> ids);
                   updatedIds = filter (\<lambda>i. i \<noteq> notificationId) notificationIds;
                   mailboxes1 = cache_set (up c) (mailboxes c) key updatedIds None;
                   bodies1 = cache_del (up c) (bodies c) (notificationKey notificationId)
               in emit_to (st\<lparr>store := c\<lparr>bodies := bodies1, mailboxes := mailboxes1\<rparr>\<rparr>)
                    (userRoom userId) (NotificationDeleted notificationId)
             else st)"

text \<open>The mailbox list stored for a recipient (empty when there is none).\<close>

definition mailbox_of :: "inapp \<Rightarrow> string \<Rightarrow> string list" where
  "mailbox_of st userId =
     (case mailboxes (store st) (mailboxKey userId) of None \<Rightarrow> [] | Some e \<Rightarrow> fst e)"

text \<open>The time to live (seconds) a notification body is stored with.\<close>

definition stored_ttl :: "inapp \<Rightarrow> string \<Rightarrow> nat option" where
  "stored_ttl st i =
     (case bodies (store st) (notificationKey i) of None \<Rightarrow> None | Some e \<Rightarrow> snd e)"

text \<open>
  The unread entries of a recipient's mailbox, in mailbox order: the notifications that
  the mailbox list names, whose body is stored and not marked read.
\<close>

definition unread_entries :: "inapp \<Rightarrow> string \<Rightarrow> InAppNotification list" where
  "unread_entries st userId =
     List.map_filter
       (\<lambda>i. case bodies (store st) (notificationKey i) of
               None \<Rightarrow> None
             | Some e \<Rightarrow> if \<not> read (fst e) then Some (fst e) else None)
       (mailbox_of st userId)"

section \<open>Template messages of the SMS and email services (backend/src/services/smsService.ts)\<close>







section \<open>Request validation (backend/src/middleware/validation.ts)\<close>

text \<open>
  Strings are sequences of characters up to U+00FF. On these, \<open>\s\<close> matches the tab, line
  feed, vertical tab, form feed, carriage return, space and no-break space, and \<open>\d\<close>
  matches the ten ASCII digits.
\<close>

definition is_space :: "char \<Rightarrow> bool" where
  "is_space c \<longleftrightarrow> (of_char c :: nat) \<in> set [9, 10, 11, 12, 13, 32, 160]"

definition is_digit :: "char \<Rightarrow> bool" where
  "is_digit c \<longleftrightarrow> 48 \<le> (of_char c :: nat) \<and> (of_char c :: nat) \<le> 57"

text \<open>The class \<open>[^\s@]\<close>.\<close>

definition email_char :: "char \<Rightarrow> bool" where
  "email_char c \<longleftrightarrow> \<not> is_space c \<and> c \<noteq> CHR ''@''"

text \<open>
  \<open>/^[^\s@]+@[^\s@]+\.[^\s@]+$/.test(s)\<close>: the first character outside the class is
  an \<open>@\<close> with something before it, what follows is in the class throughout, and it has
  a dot that is neither its first nor its last character.
\<close>

definition matches_email :: "string \<Rightarrow> bool" where
  "matches_email s =
     (case dropWhile email_char s of
        [] \<Rightarrow> False
      | c # domain \<Rightarrow>
          takeWhile email_char s \<noteq> [] \<and> c = CHR ''@'' \<and> list_all email_char domain
          \<and> CHR ''.'' \<in> set (tl (butlast domain)))"

text \<open>
  \<open>/^\+?[1-9]\d{1,14}$/.test(s)\<close>: after an optional plus sign, a digit from 1 to 9
  followed by one to fourteen digits.
\<close>

definition matches_phone :: "string \<Rightarrow> bool" where
  "matches_phone s =
     (case (case s of [] \<Rightarrow> [] | c # r \<Rightarrow> if c = CHR ''+'' then r else c # r) of
        [] \<Rightarrow> False
      | d # ds \<Rightarrow>
          is_digit d \<and> d \<noteq> CHR ''0'' \<and> 1 \<le> length ds \<and> length ds \<le> 14 \<and> list_all is_digit ds)"

text \<open>\<open>value.replace(/\s/g, '')\<close>.\<close>

definition strip_whitespace :: "string \<Rightarrow> string" where
  "strip_whitespace s = filter (\<lambda>c. \<not> is_space c) s"

text \<open>\<open>validateRecipientFormat\<close>, lines 295-306.\<close>

definition validateRecipientFormat :: "string \<Rightarrow> string \<Rightarrow> bool" where
  "validateRecipientFormat channel recipient =
     (if channel = ''EMAIL'' then matches_email recipient
      else if channel = ''SMS'' then matches_phone (strip_whitespace recipient)
      else if channel = ''IN_APP'' then length recipient > 0
      else False)"

text \<open>
  The request body, as far as the recipient is checked: \<open>to\<close> and \<open>channel\<close>, each a
  string or absent.
\<close>

record notification_request =
  req_to :: "string option"
  req_channel :: "string option"

record validation_error =
  field :: string
  msg :: string

record response =
  status :: nat
  code :: string
  details :: "validation_error list"

text \<open>
  The chain on \<open>to\<close>, lines 63-78: \<open>notEmpty\<close>, then the custom validator. Both run; each
  failure adds an error. For an absent \<open>to\<close> the email pattern is tested on the text
  \<open>undefined\<close>, and \<open>value.replace\<close> throws, which fails the validator.
\<close>

definition to_errors :: "notification_request \<Rightarrow> validation_error list" where
  "to_errors req =
     (if req_to req = None \<or> req_to req = Some []
      then [\<lparr>field = ''to'', msg = ''Recipient is required''\<rparr>] else [])
     @ (if req_channel req = Some ''EMAIL''
        then (if \<not> matches_email (case req_to req of None \<Rightarrow> ''undefined'' | Some v \<Rightarrow> v)
              then [\<lparr>field = ''to'', msg = ''Invalid email format''\<rparr>] else [])
        else if req_channel req = Some ''SMS''
        then (case req_to req of
                None \<Rightarrow> [\<lparr>field = ''to'', msg = ''Cannot read properties of undefined''\<rparr>]
              | Some v \<Rightarrow>
                  if \<not> matches_phone (strip_whitespace v)
                  then [\<lparr>field = ''to'', msg = ''Invalid phone number format''\<rparr>] else [])
        else [])"

text \<open>The chain on \<open>channel\<close>, lines 80-82.\<close>

definition channel_errors :: "notification_request \<Rightarrow> validation_error list" where
  "channel_errors req =
     (if req_channel req \<in> set [Some ''EMAIL'', Some ''SMS'', Some ''IN_APP''] then []
      else [\<lparr>field = ''channel'', msg = ''Channel must be EMAIL, SMS, or IN_APP''\<rparr>])"

text \<open>
  \<open>handleValidationErrors\<close>, lines 6-26: with errors it answers 400 and returns; without,
  it calls \<open>next()\<close> (\<open>None\<close> here).
\<close>

definition handleValidationErrors :: "validation_error list \<Rightarrow> response option" where
  "handleValidationErrors errors =
     (if errors \<noteq> []
      then Some \<lparr>status = 400, code = ''VALIDATION_ERROR'', details = errors\<rparr>
      else None)"

text \<open>
  \<open>notificationValidation\<close>, lines 62-121. \<open>rest\<close> stands for the errors found by the
  chains on \<open>subject\<close>, \<open>message\<close>, \<open>templateId\<close>, \<open>variables\<close> and \<open>sendAt\<close>.
\<close>

definition notificationValidation :: "notification_request \<Rightarrow> validation_error list \<Rightarrow> response option" where
  "notificationValidation req rest =
     handleValidationErrors (to_errors req @ channel_errors req @ rest)"

text \<open>
  A route that mounts \<open>notificationValidation\<close> before its handler: the handler, which
  enqueues the job, runs only when the last middleware called \<open>next()\<close>. The handler
  is a parameter; it maps the request and the queue to a response and the new queue.
\<close>

definition validated_route :: "(notification_request \<Rightarrow> 'q \<Rightarrow> response \<times> 'q) \<Rightarrow> notification_request \<Rightarrow> validation_error list \<Rightarrow> 'q \<Rightarrow> response \<times> 'q" where
  "validated_route handler req rest queue =
     (case notificationValidation req rest of
        Some answer \<Rightarrow> (answer, queue)
      | None \<Rightarrow> handler req queue)"

section \<open>Example states\<close>

text \<open>
  A recipient \<open>u\<close> with \<open>k\<close> unread notifications in the mailbox, named \<open>k - 1\<close> (the most
  recent, at the front) down to \<open>0\<close> (the oldest), a reachable cache, and a socket server
  without sessions.
\<close>

definition example_notification :: "string \<Rightarrow> InAppNotification" where
  "example_notification i =
     \<lparr>nid = i, to = ''u'', title = None, message = ''m'', ntype = T_info, data = None,
      timestamp = ''t'', read = False\<rparr>"

definition example_state :: "nat \<Rightarrow> inapp" where
  "example_state k =
     \<lparr>io = Some \<lparr>rooms = (\<lambda>room. []), fetch_fails = False\<rparr>,
      isConfigured = True,
      store = \<lparr>up = True,
               bodies = map_of (map (\<lambda>j. (notificationKey (Number_toString j),
                                           (example_notification (Number_toString j), Some 86400)))
                                    (rev [0..<k])),
               mailboxes = [mailboxKey ''u'' \<mapsto> (map Number_toString (rev [0..<k]), Some 86400)]\<rparr>,
      outbox = []\<rparr>"

definition example_options :: "bool option \<Rightarrow> nat option \<Rightarrow> NotificationOptions" where
  "example_options persistent_arg ttl_arg =
     \<lparr>opt_to = ''u'', opt_title = None, opt_message = ''m'', opt_type = None, opt_data = None,
      persistent = persistent_arg, ttl = ttl_arg\<rparr>"

section \<open>Counter keys are unambiguous\<close>

text \<open>
  The key \<open>rate_limit:<identifier>:<windowStart>\<close> determines both parts, whatever
  characters the identifier contains: the digits of the window start hold no colon, so the
  last colon of the key is the separator.
\<close>

lemma digit_char_inj: "a < 10 \<Longrightarrow> b < 10 \<Longrightarrow> digit_char a = digit_char b \<Longrightarrow> a = b"
  by (simp add: digit_char_def char_of_eq_iff take_bit_eq_mod)

lemma Number_toString_nonempty: "Number_toString n \<noteq> []"
  by (subst Number_toString.simps) simp


lemma Number_toString_inj: "Number_toString a = Number_toString b \<Longrightarrow> a = b"
proof (induction a arbitrary: b rule: Number_toString.induct)
  case (1 a)
  show ?case
  proof (cases "a < 10")
    case a: True
    show ?thesis
    proof (cases "b < 10")
      case True
      with a 1(2) show ?thesis
        by (simp add: Number_toString.simps [of a] Number_toString.simps [of b] digit_char_inj)
    next
      case False
      with a 1(2) Number_toString_nonempty [of "b div 10"] show ?thesis
        by (simp add: Number_toString.simps [of a] Number_toString.simps [of b])
    qed
  next
    case a: False
    show ?thesis
    proof (cases "b < 10")
      case True
      with a 1(2) Number_toString_nonempty [of "a div 10"] show ?thesis
        by (simp add: Number_toString.simps [of a] Number_toString.simps [of b])
    next
      case False
      with a 1(2) have "Number_toString (a div 10) = Number_toString (b div 10)"
        and "digit_char (a mod 10) = digit_char (b mod 10)"
        by (simp_all add: Number_toString.simps [of a] Number_toString.simps [of b])
      then have "a div 10 = b div 10" and "a mod 10 = b mod 10"
        using 1(1) [OF a] digit_char_inj [of "a mod 10" "b mod 10"] by auto
      then show ?thesis
        by (metis div_mult_mod_eq)
    qed
  qed
qed





section \<open>The counters count the calls of each window\<close>










section \<open>Results of a sequence of calls\<close>






section \<open>Limiter instances on one store\<close>

text \<open>
  The results above are about one limiter on a store that it alone writes. Two instances
  with the same window length that are asked about the same identifier increment the
  same counter: after one call of the default limiter, the first call of the
  authentication limiter is counted as the second call of the window.
\<close>

lemma limiters_share_counters:
  "fst (isAllowed authRateLimiter now
          (fst (snd (isAllowed defaultRateLimiter now fresh identifier))) identifier) =
     \<lparr>allowed = True, remaining = 3, resetTime = windowStart_of authRateLimiter now + 900000\<rparr>"
  by (simp add: isAllowed_def Let_def increment_def redis_incr_def redis_expire_def alive_def
        fresh_def authRateLimiter_def defaultRateLimiter_def windowStart_of_def)

section \<open>Spans of time and aligned windows\<close>





section \<open>Claims about the rate limiter\<close>








section \<open>Sessions, cache tables and the example states\<close>

lemma sessions_Some: "io st = Some srv \<Longrightarrow> sessions st userId = rooms srv (userRoom userId)"
  by (simp add: sessions_def)

lemma sessions_None: "io st = None \<Longrightarrow> sessions st userId = []"
  by (simp add: sessions_def)

lemma fold_cache_del:
  "fold (\<lambda>i tab. cache_del True tab (notificationKey i)) ids tab k =
     (if k \<in> notificationKey ` set ids then None else tab k)"
  by (induction ids arbitrary: tab) (auto simp: cache_del_def)

lemma notificationKey_inj: "notificationKey a = notificationKey b \<longleftrightarrow> a = b"
  by (simp add: notificationKey_def)

lemma example_key_inj:
  "inj_on (\<lambda>j. notificationKey (Number_toString j)) A"
  by (rule inj_onI) (simp add: notificationKey_inj Number_toString_inj)

lemma example_bodies:
  assumes "j < k"
  shows "bodies (store (example_state k)) (notificationKey (Number_toString j)) =
           Some (example_notification (Number_toString j), Some 86400)"
proof -
  let ?xys = "map (\<lambda>j. (notificationKey (Number_toString j),
                         (example_notification (Number_toString j), Some (86400::nat)))) (rev [0..<k])"
  have "distinct (map fst ?xys)"
    by (simp add: comp_def distinct_map example_key_inj)
  moreover have "(notificationKey (Number_toString j),
                  (example_notification (Number_toString j), Some 86400)) \<in> set ?xys"
    using assms by auto
  ultimately have "map_of ?xys (notificationKey (Number_toString j)) =
      Some (example_notification (Number_toString j), Some 86400)"
    by (rule map_of_is_SomeI)
  then show ?thesis by (simp add: example_state_def)
qed

lemma example_mailbox: "mailbox_of (example_state k) ''u'' = map Number_toString (rev [0..<k])"
  by (simp add: mailbox_of_def example_state_def)

lemma map_filter_all_Some:
  "(\<And>x. x \<in> set xs \<Longrightarrow> f x = Some (g x)) \<Longrightarrow> List.map_filter f xs = map g xs"
  by (induction xs) (simp_all add: map_filter_simps)

lemma example_unread:
  "getUserNotifications (example_state k) ''u'' False limit =
     map (\<lambda>j. example_notification (Number_toString j)) (take limit (rev [0..<k]))"
proof -
  have ids: "(case cache_get True (mailboxes (store (example_state k))) (mailboxKey ''u'') of
               None \<Rightarrow> [] | Some ids \<Rightarrow> ids) = map Number_toString (rev [0..<k])"
    by (simp add: cache_get_def example_state_def)
  have up: "up (store (example_state k))" by (simp add: example_state_def)
  have "List.map_filter
          (\<lambda>i. case cache_get True (bodies (store (example_state k))) (notificationKey i) of
                  None \<Rightarrow> None
                | Some notification \<Rightarrow> if False \<or> \<not> read notification then Some notification else None)
          (map Number_toString (take limit (rev [0..<k]))) =
        map example_notification (map Number_toString (take limit (rev [0..<k])))"
  proof (rule map_filter_all_Some)
    fix x assume "x \<in> set (map Number_toString (take limit (rev [0..<k])))"
    then obtain j where j: "x = Number_toString j" "j \<in> set (take limit (rev [0..<k]))" by auto
    then have "j < k" using in_set_takeD by fastforce
    then show "(case cache_get True (bodies (store (example_state k))) (notificationKey x) of
                  None \<Rightarrow> None
                | Some notification \<Rightarrow> if False \<or> \<not> read notification then Some notification else None)
               = Some (example_notification x)"
      by (simp add: j(1) cache_get_def example_bodies example_notification_def)
  qed
  then show ?thesis
    using up by (simp add: getUserNotifications_def Let_def ids take_map comp_def)
qed

lemma example_unread_entries:
  "unread_entries (example_state k) ''u'' =
     map (\<lambda>j. example_notification (Number_toString j)) (rev [0..<k])"
proof -
  have "List.map_filter
          (\<lambda>i. case bodies (store (example_state k)) (notificationKey i) of
                  None \<Rightarrow> None
                | Some e \<Rightarrow> if \<not> read (fst e) then Some (fst e) else None)
          (map Number_toString (rev [0..<k])) =
        map example_notification (map Number_toString (rev [0..<k]))"
  proof (rule map_filter_all_Some)
    fix x assume "x \<in> set (map Number_toString (rev [0..<k]))"
    then obtain j where j: "x = Number_toString j" "j < k" by auto
    then show "(case bodies (store (example_state k)) (notificationKey x) of
                  None \<Rightarrow> None
                | Some e \<Rightarrow> if \<not> read (fst e) then Some (fst e) else None)
               = Some (example_notification x)"
      by (simp add: example_bodies example_notification_def)
  qed
  then show ?thesis
    by (simp add: unread_entries_def example_mailbox comp_def)
qed

lemma join_example:
  "join (example_state k) sock ''u'' =
     (let st = (example_state k)\<lparr>io := Some \<lparr>rooms = (\<lambda>room. if room = userRoom ''u'' then [sock] else []),
                                             fetch_fails = False\<rparr>\<rparr>
      in if k = 0 then st
         else st\<lparr>outbox := [(sock, PendingNotifications
                 (map (\<lambda>j. example_notification (Number_toString j)) (take 50 (rev [0..<k]))))]\<rparr>)"
proof -
  have io: "io (example_state k) = Some \<lparr>rooms = (\<lambda>room. []), fetch_fails = False\<rparr>"
    by (simp add: example_state_def)
  have r: "(\<lambda>room. [])(userRoom ''u'' := [sock]) =
           (\<lambda>room. if room = userRoom ''u'' then [sock] else [])"
    by (rule ext) simp
  have g: "\<And>s. getUserNotifications ((example_state k)\<lparr>io := s\<rparr>) ''u'' False 50 =
        map (\<lambda>j. example_notification (Number_toString j)) (take 50 (rev [0..<k]))"
    using example_unread [of k 50] by (simp add: getUserNotifications_def)
  have ob: "outbox (example_state k) = []" by (simp add: example_state_def)
  show ?thesis
    by (simp add: join_def io r sendPendingNotifications_def g Let_def emit_to_def ob)
qed

lemma deliverNotification_store: "store (snd (deliverNotification st n)) = store st"
  by (simp add: deliverNotification_def emit_to_def split: option.split)

lemma storeNotification_outbox: "outbox (snd (storeNotification st n t)) = outbox st"
  by (simp add: storeNotification_def Let_def)

lemma storeNotification_written:
  fixes t :: "nat option"
  assumes "up (store st)"
  defines "secs \<equiv> (case t of None \<Rightarrow> 86400 | Some x \<Rightarrow> if x \<noteq> 0 then x else 86400)"
  shows "mailboxes (store (snd (storeNotification st n t))) (mailboxKey (to n)) =
           Some (take 100 (nid n # mailbox_of st (to n)), Some secs)"
    and "nid n \<notin> set (mailbox_of st (to n)) \<Longrightarrow>
           bodies (store (snd (storeNotification st n t))) (notificationKey (nid n)) =
             Some (n, Some secs)"
proof -
  have got: "(case cache_get True (mailboxes (store st)) (mailboxKey (to n)) of
               None \<Rightarrow> [] | Some ids \<Rightarrow> ids) = mailbox_of st (to n)"
    by (simp add: cache_get_def mailbox_of_def split: option.split)
  have s0: "secs \<noteq> 0" by (simp add: secs_def split: option.split)
  show "mailboxes (store (snd (storeNotification st n t))) (mailboxKey (to n)) =
           Some (take 100 (nid n # mailbox_of st (to n)), Some secs)"
    using assms(1) s0
    by (simp add: storeNotification_def Let_def got cache_set_def secs_def [symmetric])
  assume fresh_id: "nid n \<notin> set (mailbox_of st (to n))"
  have "set (drop 99 (mailbox_of st (to n))) \<subseteq> set (mailbox_of st (to n))"
    by (rule set_drop_subset)
  with fresh_id have "notificationKey (nid n) \<notin> notificationKey ` set (drop 99 (mailbox_of st (to n)))"
    by (auto simp: notificationKey_inj)
  then show "bodies (store (snd (storeNotification st n t))) (notificationKey (nid n)) =
             Some (n, Some secs)"
    using assms(1) s0
    by (simp add: storeNotification_def Let_def got cache_set_def secs_def [symmetric] fold_cache_del)
qed

lemma sendNotification_unfold:
  "isConfigured st \<Longrightarrow>
   sendNotification st options newId now_iso =
     (if persistent options = Some True
         \<or> \<not> fst (deliverNotification st (make_notification options newId now_iso))
      then Inr ((fst (deliverNotification st (make_notification options newId now_iso)),
                 fst (storeNotification
                        (snd (deliverNotification st (make_notification options newId now_iso)))
                        (make_notification options newId now_iso) (ttl options))),
                snd (storeNotification
                       (snd (deliverNotification st (make_notification options newId now_iso)))
                       (make_notification options newId now_iso) (ttl options)))
      else Inr ((fst (deliverNotification st (make_notification options newId now_iso)), False),
                snd (deliverNotification st (make_notification options newId now_iso))))"
  by (simp add: sendNotification_def Let_def split: prod.split)

text \<open>
  The flush on join: the cache is never changed by it, and for a mailbox of at most 50
  entries the event carries every unread entry.
\<close>

lemma join_store: "store (join st sock userId) = store st"
  by (simp add: join_def sendPendingNotifications_def emit_to_def Let_def split: option.split)

lemma getUserNotifications_unread:
  assumes "up (store st)" and "length (mailbox_of st userId) \<le> limit"
  shows "getUserNotifications st userId False limit = unread_entries st userId"
proof -
  have ids: "(case cache_get True (mailboxes (store st)) (mailboxKey userId) of
               None \<Rightarrow> [] | Some ids \<Rightarrow> ids) = mailbox_of st userId"
    by (simp add: cache_get_def mailbox_of_def split: option.split)
  have f: "(\<lambda>i. case cache_get True (bodies (store st)) (notificationKey i) of
                  None \<Rightarrow> None
                | Some notification \<Rightarrow>
                    if False \<or> \<not> read notification then Some notification else None)
         = (\<lambda>i. case bodies (store st) (notificationKey i) of
                  None \<Rightarrow> None
                | Some e \<Rightarrow> if \<not> read (fst e) then Some (fst e) else None)"
    by (rule ext) (simp add: cache_get_def split: option.split)
  show ?thesis
    using assms by (simp add: getUserNotifications_def unread_entries_def Let_def ids f)
qed

lemma join_pushes_small_mailbox:
  assumes "io st = Some srv" and "up (store st)" and "length (mailbox_of st userId) \<le> 50"
    and "unread_entries st userId \<noteq> []"
  shows "outbox (join st sock userId) =
           outbox st @ map (\<lambda>s. (s, PendingNotifications (unread_entries st userId)))
                         (List.insert sock (rooms srv (userRoom userId)))"
proof -
  let ?st = "st\<lparr>io := Some (srv\<lparr>rooms := (rooms srv)
                    (userRoom userId := List.insert sock (rooms srv (userRoom userId)))\<rparr>)\<rparr>"
  have g: "getUserNotifications ?st userId False 50 = unread_entries st userId"
    using getUserNotifications_unread [of ?st userId 50] assms(2,3)
    by (simp add: mailbox_of_def unread_entries_def)
  show ?thesis
    using assms(1,4)
    by (simp add: join_def sendPendingNotifications_def g Let_def emit_to_def)
qed

section \<open>Claims about the in-app service\<close>

text \<open>
  C2. With the cache reachable, after \<open>storeNotification\<close> the recipient's mailbox list
  is the first 100 entries of the new identifier followed by the old list: it holds at
  most 100 identifiers, the new one is at the front, and no identifier past position 100
  resolves to a stored body any more.
\<close>

theorem storeNotification_mailbox:
  assumes "up (store st)"
  shows "mailbox_of (snd (storeNotification st notification ttl_arg)) (to notification) =
           take 100 (nid notification # mailbox_of st (to notification))
       \<and> length (mailbox_of (snd (storeNotification st notification ttl_arg)) (to notification)) \<le> 100
       \<and> hd (mailbox_of (snd (storeNotification st notification ttl_arg)) (to notification)) =
           nid notification
       \<and> (\<forall>i \<in> set (drop 100 (nid notification # mailbox_of st (to notification))).
             cache_get True (bodies (store (snd (storeNotification st notification ttl_arg))))
               (notificationKey i) = None)"
proof -
  let ?old = "mailbox_of st (to notification)"
  let ?st' = "snd (storeNotification st notification ttl_arg)"
  have got: "(case cache_get True (mailboxes (store st)) (mailboxKey (to notification)) of
               None \<Rightarrow> [] | Some ids \<Rightarrow> ids) = ?old"
    by (simp add: cache_get_def mailbox_of_def split: option.split)
  have m: "mailbox_of ?st' (to notification) = take 100 (nid notification # ?old)"
    using assms by (simp add: storeNotification_def Let_def got mailbox_of_def cache_set_def)
  have b: "\<forall>i \<in> set (drop 100 (nid notification # ?old)).
             bodies (store ?st') (notificationKey i) = None"
  proof
    fix i assume i: "i \<in> set (drop 100 (nid notification # ?old))"
    then have "100 < length (nid notification # ?old)"
      by (metis drop_all empty_iff list.set(1) not_le_imp_less)
    then show "bodies (store ?st') (notificationKey i) = None"
      using assms i by (simp add: storeNotification_def Let_def got fold_cache_del)
  qed
  show ?thesis
    using m b by (simp add: cache_get_def)
qed

theorem storeNotification_mailbox_witness:
  "up (store (example_state 100))
   \<and> drop 100 (''n1'' # mailbox_of (example_state 100) ''u'') = [Number_toString 0]
   \<and> length (mailbox_of (snd (storeNotification (example_state 100)
                (example_notification ''n1'') None)) ''u'') \<le> 100
   \<and> cache_get True (bodies (store (snd (storeNotification (example_state 100)
                (example_notification ''n1'') None)))) (notificationKey (Number_toString 0)) = None"
proof -
  have d: "drop 100 (''n1'' # mailbox_of (example_state 100) ''u'') = [Number_toString 0]"
    by (simp add: example_mailbox drop_map drop_rev upt_rec [of 0 1])
  have u: "up (store (example_state 100))" by (simp add: example_state_def)
  have t: "to (example_notification ''n1'') = ''u''" "nid (example_notification ''n1'') = ''n1''"
    by (simp_all add: example_notification_def)
  show ?thesis
    using storeNotification_mailbox [OF u, of "example_notification ''n1''" None] d u
    by (simp add: t)
qed

text \<open>
  C4. When \<open>fetchSockets\<close> does not reject, \<open>deliverNotification\<close> returns \<open>true\<close>
  exactly when the recipient's room holds a socket; it then sends the notification to
  every socket of the room and changes nothing else, and otherwise it changes nothing.
\<close>

theorem deliverNotification_sessions:
  assumes "\<forall>srv. io st = Some srv \<longrightarrow> \<not> fetch_fails srv"
  shows "fst (deliverNotification st notification) = (sessions st (to notification) \<noteq> [])
       \<and> snd (deliverNotification st notification) =
           (if sessions st (to notification) \<noteq> []
            then st\<lparr>outbox := outbox st @
                   map (\<lambda>sock. (sock, Notification notification)) (sessions st (to notification))\<rparr>
            else st)"
proof (cases "io st")
  case None
  then show ?thesis by (simp add: deliverNotification_def sessions_None)
next
  case (Some srv)
  with assms have "\<not> fetch_fails srv" by simp
  with Some show ?thesis
    by (simp add: deliverNotification_def sessions_Some emit_to_def)
qed

theorem deliverNotification_sessions_witness:
  "fst (deliverNotification
      \<lparr>io = Some \<lparr>rooms = (\<lambda>room. if room = ''user:u1'' then [''s1'', ''s2''] else []),
                  fetch_fails = False\<rparr>,
       isConfigured = True,
       store = \<lparr>up = True, bodies = Map.empty, mailboxes = Map.empty\<rparr>,
       outbox = []\<rparr>
      \<lparr>nid = ''n1'', to = ''u1'', title = None, message = ''hello'', ntype = T_info,
       data = None, timestamp = ''t'', read = False\<rparr>)
   \<and> map fst (outbox (snd (deliverNotification
      \<lparr>io = Some \<lparr>rooms = (\<lambda>room. if room = ''user:u1'' then [''s1'', ''s2''] else []),
                  fetch_fails = False\<rparr>,
       isConfigured = True,
       store = \<lparr>up = True, bodies = Map.empty, mailboxes = Map.empty\<rparr>,
       outbox = []\<rparr>
      \<lparr>nid = ''n1'', to = ''u1'', title = None, message = ''hello'', ntype = T_info,
       data = None, timestamp = ''t'', read = False\<rparr>))) = [''s1'', ''s2'']"
  using deliverNotification_sessions [of
      "\<lparr>io = Some \<lparr>rooms = (\<lambda>room. if room = ''user:u1'' then [''s1'', ''s2''] else []),
                  fetch_fails = False\<rparr>,
       isConfigured = True,
       store = \<lparr>up = True, bodies = Map.empty, mailboxes = Map.empty\<rparr>,
       outbox = []\<rparr>"
      "\<lparr>nid = ''n1'', to = ''u1'', title = None, message = ''hello'', ntype = T_info,
       data = None, timestamp = ''t'', read = False\<rparr>"]
  by (simp add: sessions_def userRoom_def)

text \<open>
  C5, as stated: the stored entry's time to live is \<open>options.ttl\<close> when given. It fails
  for \<open>ttl = 0\<close>: \<open>ttl || 86400\<close> takes 0 for missing, and the entry is stored for
  86400 seconds.
\<close>

theorem stored_ttl_counterexample:
  "ttl (example_options (Some True) (Some 0)) = Some 0
   \<and> stored_ttl (snd (projr (sendNotification (example_state 0)
                             (example_options (Some True) (Some 0)) ''n1'' ''t''))) ''n1''
       = Some 86400
   \<and> stored_ttl (snd (projr (sendNotification (example_state 0)
                             (example_options (Some True) (Some 0)) ''n1'' ''t''))) ''n1''
       \<noteq> ttl (example_options (Some True) (Some 0))"
  by (simp add: sendNotification_def example_state_def example_options_def make_notification_def
        deliverNotification_def storeNotification_def cache_get_def cache_set_def Let_def
        stored_ttl_def mailboxKey_def notificationKey_def)

text \<open>
  C5, amended. For a configured service and a reachable cache, \<open>sendNotification\<close>
  returns the result of the delivery attempt made first, and sends nothing beyond it. The
  notification is written to the mailbox exactly when \<open>persistent\<close> is true or delivery
  returned \<open>false\<close>: then the mailbox list gets the new identifier at its front and, the
  identifier being new to the mailbox, the body is stored, both with a time to live of
  \<open>options.ttl\<close> when that is given and not 0, and of 86400 seconds otherwise. When it is
  not written the cache is unchanged.
\<close>

theorem sendNotification_stores:
  assumes "isConfigured st" and "up (store st)"
  shows "case sendNotification st options newId now_iso of
           Inl e \<Rightarrow> False
         | Inr (res, st') \<Rightarrow>
             fst res = fst (deliverNotification st (make_notification options newId now_iso))
           \<and> outbox st' = outbox (snd (deliverNotification st (make_notification options newId now_iso)))
           \<and> (if persistent options = Some True \<or> \<not> fst res
               then snd res
                  \<and> mailboxes (store st') (mailboxKey (opt_to options)) =
                      Some (take 100 (newId # mailbox_of st (opt_to options)),
                            Some (case ttl options of
                                    None \<Rightarrow> 86400
                                  | Some t \<Rightarrow> if t \<noteq> 0 then t else 86400))
                  \<and> (newId \<notin> set (mailbox_of st (opt_to options)) \<longrightarrow>
                       bodies (store st') (notificationKey newId) =
                         Some (make_notification options newId now_iso,
                               Some (case ttl options of
                                       None \<Rightarrow> 86400
                                     | Some t \<Rightarrow> if t \<noteq> 0 then t else 86400)))
               else \<not> snd res \<and> store st' = store st)"
proof -
  let ?n = "make_notification options newId now_iso"
  let ?d = "deliverNotification st ?n"
  have n: "nid ?n = newId" "to ?n = opt_to options" by (simp_all add: make_notification_def)
  have up1: "up (store (snd ?d))" using assms(2) by (simp add: deliverNotification_store)
  have mb: "mailbox_of (snd ?d) (opt_to options) = mailbox_of st (opt_to options)"
    by (simp add: mailbox_of_def deliverNotification_store)
  note w = storeNotification_written [OF up1, of ?n "ttl options", unfolded n mb]
  have stored: "fst (storeNotification (snd ?d) ?n (ttl options)) = True"
    by (simp add: storeNotification_def Let_def)
  show ?thesis
  proof (cases "persistent options = Some True \<or> \<not> fst ?d")
    case True
    then show ?thesis
      using w stored
      by (simp add: sendNotification_unfold [OF assms(1)] storeNotification_outbox)
  next
    case False
    then show ?thesis
      by (simp add: sendNotification_unfold [OF assms(1)] deliverNotification_store)
  qed
qed

theorem sendNotification_stores_witness:
  "isConfigured (example_state 0) \<and> up (store (example_state 0))
   \<and> ''n1'' \<notin> set (mailbox_of (example_state 0) ''u'')
   \<and> stored_ttl (snd (projr (sendNotification (example_state 0)
                             (example_options (Some True) (Some 30)) ''n1'' ''t''))) ''n1''
       = Some 30"
  using sendNotification_stores [of "example_state 0" "example_options (Some True) (Some 30)"
          "''n1''" "''t''"]
  by (auto simp add: example_state_def example_options_def mailbox_of_def stored_ttl_def
        split: sum.splits)

text \<open>
  C6. The claim is that a joining session is sent every unread mailbox entry. The
  \<open>join\<close> handler reads the mailbox with the default limit of 50, while a mailbox holds up
  to 100 entries: for a recipient with 51 unread entries the single event pushed on join
  carries the 50 most recent ones and leaves out the oldest, which is unread and still in
  the mailbox. The cache is unchanged by the flush.
\<close>

theorem join_flush_truncated:
  "outbox (join (example_state 51) ''s1'' ''u'') =
     [(''s1'', PendingNotifications
                 (map (\<lambda>j. example_notification (Number_toString j)) (rev [1..<51])))]
   \<and> unread_entries (example_state 51) ''u'' =
       map (\<lambda>j. example_notification (Number_toString j)) (rev [1..<51])
         @ [example_notification (Number_toString 0)]
   \<and> example_notification (Number_toString 0)
        \<notin> set (map (\<lambda>j. example_notification (Number_toString j)) (rev [1..<51]))
   \<and> store (join (example_state 51) ''s1'' ''u'') = store (example_state 51)"
proof -
  have t: "take 50 (rev [0..<51]) = rev [1..<51]"
    by (simp add: take_rev)
  have u: "rev [0..<51] = rev [1..<51] @ [0]"
    by (simp add: upt_rec [of 0 51])
  have n: "example_notification (Number_toString 0)
        \<notin> set (map (\<lambda>j. example_notification (Number_toString j)) (rev [1..<51]))"
    by (auto simp: example_notification_def dest: Number_toString_inj)
  show ?thesis
    using n by (simp add: join_example t example_unread_entries u Let_def)
qed

text \<open>
  C10. When the stored notification's recipient is not \<open>userId\<close>,
  \<open>markNotificationAsRead\<close> and \<open>deleteNotification\<close> return the state they were given:
  the notification body, every mailbox list, every other entry, the sessions and the
  events sent are unchanged.
\<close>

theorem foreign_user_cannot_mutate:
  assumes "bodies (store st) (notificationKey notificationId) = Some (notification, secs)"
    and "to notification \<noteq> userId"
  shows "markNotificationAsRead st notificationId userId = st
       \<and> deleteNotification st notificationId userId = st"
  using assms
  by (simp add: markNotificationAsRead_def deleteNotification_def cache_get_def Let_def)

theorem foreign_user_cannot_mutate_witness:
  "bodies (store (example_state 1)) (notificationKey (Number_toString 0)) =
     Some (example_notification (Number_toString 0), Some 86400)
   \<and> to (example_notification (Number_toString 0)) \<noteq> ''mallory''
   \<and> markNotificationAsRead (example_state 1) (Number_toString 0) ''mallory'' = example_state 1
   \<and> deleteNotification (example_state 1) (Number_toString 0) ''mallory'' = example_state 1"
proof -
  have b: "bodies (store (example_state 1)) (notificationKey (Number_toString 0)) =
     Some (example_notification (Number_toString 0), Some 86400)"
    by (rule example_bodies) simp
  have t: "to (example_notification (Number_toString 0)) \<noteq> ''mallory''"
    by (simp add: example_notification_def)
  show ?thesis
    using foreign_user_cannot_mutate [OF b t] b t by simp
qed

section \<open>The three substitution loops\<close>









section \<open>Claims about template substitution\<close>




section \<open>The recipient patterns\<close>

text \<open>
  The two matchers accept exactly the strings of the regular expressions they stand for:
  a local part, an \<open>@\<close>, and a domain with an inner dot, all of characters of the class;
  and an optional plus sign, a digit from 1 to 9 and one to fourteen more digits.
\<close>

lemma email_char_dot: "email_char CHR ''.''"
  by (simp add: email_char_def is_space_def)

lemma not_email_char_at: "\<not> email_char CHR ''@''"
  by (simp add: email_char_def)

lemma matches_email_iff:
  "matches_email s \<longleftrightarrow>
     (\<exists>a b c. s = a @ CHR ''@'' # b @ CHR ''.'' # c \<and> a \<noteq> [] \<and> b \<noteq> [] \<and> c \<noteq> []
        \<and> list_all email_char a \<and> list_all email_char b \<and> list_all email_char c)"
proof
  assume m: "matches_email s"
  then obtain x domain where d: "dropWhile email_char s = x # domain"
    by (auto simp: matches_email_def split: list.splits)
  with m have p: "takeWhile email_char s \<noteq> []" "x = CHR ''@''" "list_all email_char domain"
      "CHR ''.'' \<in> set (tl (butlast domain))"
    by (auto simp: matches_email_def)
  from p(4) obtain xs ys where xy: "tl (butlast domain) = xs @ CHR ''.'' # ys"
    by (meson split_list)
  then have ne: "butlast domain \<noteq> []" by auto
  then have ne2: "domain \<noteq> []" by auto
  have "butlast domain = hd (butlast domain) # xs @ CHR ''.'' # ys"
    using xy ne by (metis list.collapse)
  then have dom: "domain = (hd (butlast domain) # xs) @ CHR ''.'' # (ys @ [last domain])"
    using ne2 by (metis append_butlast_last_id append_Cons append_assoc)
  let ?a = "takeWhile email_char s"
  let ?b = "hd (butlast domain) # xs"
  let ?c = "ys @ [last domain]"
  have s: "s = ?a @ CHR ''@'' # ?b @ CHR ''.'' # ?c"
    using takeWhile_dropWhile_id [of email_char s] d p(2) dom by simp
  have "list_all email_char ?a" by (simp add: list_all_iff) (meson set_takeWhileD)
  moreover have "list_all email_char ?b \<and> list_all email_char ?c"
    using p(3) by (subst (asm) dom) (simp add: list_all_iff)
  ultimately show "\<exists>a b c. s = a @ CHR ''@'' # b @ CHR ''.'' # c \<and> a \<noteq> [] \<and> b \<noteq> [] \<and> c \<noteq> []
        \<and> list_all email_char a \<and> list_all email_char b \<and> list_all email_char c"
    using s p(1) by blast
next
  assume "\<exists>a b c. s = a @ CHR ''@'' # b @ CHR ''.'' # c \<and> a \<noteq> [] \<and> b \<noteq> [] \<and> c \<noteq> []
        \<and> list_all email_char a \<and> list_all email_char b \<and> list_all email_char c"
  then obtain a b c where s: "s = a @ CHR ''@'' # b @ CHR ''.'' # c"
    and ne: "a \<noteq> []" "b \<noteq> []" "c \<noteq> []"
    and cl: "list_all email_char a" "list_all email_char b" "list_all email_char c"
    by blast
  have tw: "takeWhile email_char s = a"
    unfolding s using cl(1) not_email_char_at
    by (simp add: list_all_iff takeWhile_append2)
  have dw: "dropWhile email_char s = CHR ''@'' # b @ CHR ''.'' # c"
    unfolding s using cl(1) not_email_char_at
    by (simp add: list_all_iff dropWhile_append2)
  have "butlast (b @ CHR ''.'' # c) = b @ CHR ''.'' # butlast c"
    using ne(3) by (simp add: butlast_append)
  then have "tl (butlast (b @ CHR ''.'' # c)) = tl b @ CHR ''.'' # butlast c"
    using ne(2) by simp
  then have dot: "CHR ''.'' \<in> set (tl (butlast (b @ CHR ''.'' # c)))" by simp
  show "matches_email s"
    using tw dw ne(1) cl dot email_char_dot by (simp add: matches_email_def)
qed

lemma plus_not_digit: "\<not> is_digit CHR ''+''"
  by (simp add: is_digit_def)

lemma matches_phone_iff:
  "matches_phone s \<longleftrightarrow>
     (\<exists>p d ds. s = p @ d # ds \<and> (p = [] \<or> p = ''+'') \<and> is_digit d \<and> d \<noteq> CHR ''0''
        \<and> 1 \<le> length ds \<and> length ds \<le> 14 \<and> list_all is_digit ds)"
proof
  assume m: "matches_phone s"
  show "\<exists>p d ds. s = p @ d # ds \<and> (p = [] \<or> p = ''+'') \<and> is_digit d \<and> d \<noteq> CHR ''0''
        \<and> 1 \<le> length ds \<and> length ds \<le> 14 \<and> list_all is_digit ds"
  proof (cases s)
    case Nil
    with m show ?thesis by (simp add: matches_phone_def)
  next
    case (Cons c r)
    show ?thesis
    proof (cases "c = CHR ''+''")
      case True
      with m Cons obtain d ds where "r = d # ds" "is_digit d" "d \<noteq> CHR ''0''"
          "1 \<le> length ds" "length ds \<le> 14" "list_all is_digit ds"
        by (auto simp: matches_phone_def split: list.splits)
      with Cons True have "s = ''+'' @ d # ds" by simp
      then show ?thesis
        using \<open>is_digit d\<close> \<open>d \<noteq> CHR ''0''\<close> \<open>1 \<le> length ds\<close> \<open>length ds \<le> 14\<close>
          \<open>list_all is_digit ds\<close> by blast
    next
      case False
      with m Cons have "is_digit c" "c \<noteq> CHR ''0''" "1 \<le> length r" "length r \<le> 14"
          "list_all is_digit r"
        by (auto simp: matches_phone_def)
      moreover have "s = [] @ c # r" using Cons by simp
      ultimately show ?thesis by blast
    qed
  qed
next
  assume "\<exists>p d ds. s = p @ d # ds \<and> (p = [] \<or> p = ''+'') \<and> is_digit d \<and> d \<noteq> CHR ''0''
        \<and> 1 \<le> length ds \<and> length ds \<le> 14 \<and> list_all is_digit ds"
  then obtain p d ds where s: "s = p @ d # ds" and p: "p = [] \<or> p = ''+''"
    and d: "is_digit d" "d \<noteq> CHR ''0''" "1 \<le> length ds" "length ds \<le> 14" "list_all is_digit ds"
    by blast
  from p show "matches_phone s"
  proof
    assume "p = []"
    moreover have "d \<noteq> CHR ''+''" using d(1) plus_not_digit by auto
    ultimately show ?thesis using s d by (simp add: matches_phone_def)
  next
    assume "p = ''+''"
    then show ?thesis using s d by (simp add: matches_phone_def)
  qed
qed

section \<open>Claims about request validation\<close>

text \<open>
  C8. A request on channel EMAIL or SMS whose recipient does not have the format of the
  channel (the email pattern; the phone pattern on the recipient without whitespace) is
  answered by \<open>notificationValidation\<close> with status 400 and code \<open>VALIDATION_ERROR\<close>,
  whatever the other fields hold; the route's handler does not run, so the queue is
  left as it was: nothing is enqueued, and there is no job to retry.
\<close>

theorem invalid_recipient_rejected:
  assumes "req_to req = Some recipient"
    and "req_channel req = Some channel"
    and "channel = ''EMAIL'' \<or> channel = ''SMS''"
    and "\<not> validateRecipientFormat channel recipient"
  shows "\<exists>errors. errors \<noteq> []
           \<and> notificationValidation req rest =
               Some \<lparr>status = 400, code = ''VALIDATION_ERROR'', details = errors\<rparr>
           \<and> validated_route handler req rest queue =
               (\<lparr>status = 400, code = ''VALIDATION_ERROR'', details = errors\<rparr>, queue)"
proof -
  have "to_errors req \<noteq> []"
    using assms by (auto simp: to_errors_def validateRecipientFormat_def)
  then have e: "to_errors req @ channel_errors req @ rest \<noteq> []" by simp
  then have "notificationValidation req rest =
      Some \<lparr>status = 400, code = ''VALIDATION_ERROR'',
            details = to_errors req @ channel_errors req @ rest\<rparr>"
    by (simp add: notificationValidation_def handleValidationErrors_def)
  then show ?thesis
    using e by (simp add: validated_route_def)
qed

theorem invalid_recipient_rejected_witness:
  "\<not> validateRecipientFormat ''SMS'' ''+1 415 abc''
   \<and> status (fst (validated_route (\<lambda>req queue. (\<lparr>status = 202, code = ''QUEUED'', details = []\<rparr>, req # queue))
        \<lparr>req_to = Some ''+1 415 abc'', req_channel = Some ''SMS''\<rparr> [] [])) = 400
   \<and> snd (validated_route (\<lambda>req queue. (\<lparr>status = 202, code = ''QUEUED'', details = []\<rparr>, req # queue))
        \<lparr>req_to = Some ''+1 415 abc'', req_channel = Some ''SMS''\<rparr> [] []) = []"
proof -
  have v: "\<not> validateRecipientFormat ''SMS'' ''+1 415 abc''"
    by (simp add: validateRecipientFormat_def matches_phone_def strip_whitespace_def is_space_def
          is_digit_def)
  show ?thesis
    using v invalid_recipient_rejected [of "\<lparr>req_to = Some ''+1 415 abc'', req_channel = Some ''SMS''\<rparr>"
        "''+1 415 abc''" "''SMS''" "[]"
        "\<lambda>req queue. (\<lparr>status = 202, code = ''QUEUED'', details = []\<rparr>, req # queue)" "[]"]
    by auto
qed

end
